theory Spec2Isabelle
  imports Main
begin

section \<open>Values shared by \<open>player.py\<close> and \<open>moving_strategy.py\<close>\<close>

text \<open>
  Coordinates are Python integers, written \<open>(col, row)\<close> as the source passes them to
  \<open>output_piece\<close>, \<open>move_towards_centre\<close> and \<open>Move\<close>.  Piece and colour symbols are
  Python one-character strings (\<open>'O'\<close>, \<open>'@'\<close>, \<open>'W'\<close>, \<open>'B'\<close>).
\<close>

type_synonym coord = "int \<times> int"

datatype error = InvalidMoveError | KeyError | BoardError

section \<open>\<open>find_tiles_of_rank\<close> (\<open>moving_strategy.py\<close>, lines 62--93)\<close>

text \<open>
  The dictionary literal \<open>tile_dict\<close>, as an association list in the order of the source;
  \<open>tile_dict[rank]\<close> raises \<open>KeyError\<close> on a key that is absent.
\<close>

definition tile_dict :: "(int \<times> coord list) list" where
  "tile_dict =
    [(0, [(0, 1), (0, 2), (0, 3), (0, 4), (0, 5), (0, 6),
          (1, 0), (2, 0), (3, 0), (4, 0), (5, 0), (6, 0),
          (1, 7), (2, 7), (3, 7), (4, 7), (5, 7), (6, 7),
          (7, 1), (7, 2), (7, 3), (7, 4), (7, 5), (7, 6)]),
     (1, [(1, 1), (1, 2), (1, 3), (1, 4), (1, 5), (1, 6),
          (2, 1), (3, 1), (4, 1), (5, 1),
          (2, 6), (3, 6), (4, 6), (5, 6),
          (6, 1), (6, 2), (6, 3), (6, 4), (6, 5), (6, 6)]),
     (2, [(2, 2), (2, 3), (2, 4), (2, 5),
          (3, 2), (4, 2),
          (3, 5), (4, 5),
          (5, 2), (5, 3), (5, 4), (5, 5)]),
     (3, [(3, 3), (3, 4),
          (4, 3), (4, 4)])]"

definition find_tiles_of_rank :: "int \<Rightarrow> error + coord list" where
  "find_tiles_of_rank rank =
     (case map_of tile_dict rank of
        None \<Rightarrow> Inl KeyError
      | Some tiles \<Rightarrow> Inr tiles)"

text \<open>The 8x8 grid and its four corner cells.\<close>

definition in_grid :: "coord \<Rightarrow> bool" where
  "in_grid t = (0 \<le> fst t \<and> fst t \<le> 7 \<and> 0 \<le> snd t \<and> snd t \<le> 7)"

definition grid_corners :: "coord list" where
  "grid_corners = [(0, 0), (0, 7), (7, 0), (7, 7)]"

section \<open>The collaborators that are not part of these two files\<close>

text \<open>
  \<open>board_state.py\<close>, \<open>move.py\<close>, \<open>action.py\<close> and \<open>placing_strategy.py\<close> are imported
  by the two files but are not among them.  Their objects are modelled as plain values
  and their operations are taken as parameters (the record \<open>collab\<close>), so that every
  result about the two files holds for any implementation of them.
\<close>

text \<open>A \<open>Move\<close> object: source and destination cell.\<close>

datatype move = MoveObj coord coord

text \<open>
  The tuple exchanged with the referee: a placement \<open>(col, row)\<close> or a movement
  \<open>((col, row), (col, row))\<close>.  A forfeit is Python's \<open>None\<close>.
\<close>

datatype ref_action = Placement coord | Movement coord coord

text \<open>
  An \<open>Action\<close> object as the sources construct it:
  \<open>Action(board_state, enemy, action=..., move=...)\<close>.
\<close>

datatype 'b action = Action 'b string "ref_action option" "move option"

record 'b collab =
  new_board :: "'b"
  output_piece :: "'b \<Rightarrow> int \<Rightarrow> int \<Rightarrow> error + string"
  modify :: "'b \<Rightarrow> 'b action option \<Rightarrow> string \<Rightarrow> 'b"
  shrink_board :: "'b \<Rightarrow> 'b"
  search_board :: "'b \<Rightarrow> string \<Rightarrow> coord list"
  valid_move :: "'b \<Rightarrow> coord \<Rightarrow> coord \<Rightarrow> bool"
  generate_moves :: "'b \<Rightarrow> string \<Rightarrow> move list"
  do_random_place :: "'b \<Rightarrow> string \<Rightarrow> nat \<Rightarrow> 'b action option"
  return_action :: "'b action \<Rightarrow> ref_action option"

text \<open>
  \<open>new_board\<close> is \<open>BoardState()\<close>; \<open>output_piece\<close> may fail (the specification leaves
  inactive and out-of-range cells to an error); \<open>modify\<close> receives the action the
  sources pass, which is \<open>None\<close> on a forfeit, and returns the receiver as mutated;
  \<open>valid_move\<close> is the validation that the constructor \<open>Move(board, col, row, new_col,
  new_row)\<close> performs; \<open>do_random_place\<close> takes the state of the random source as a
  natural number.
\<close>

definition Move :: "'b collab \<Rightarrow> 'b \<Rightarrow> int \<Rightarrow> int \<Rightarrow> int \<Rightarrow> int \<Rightarrow> error + move" where
  "Move ops board_state col row new_col new_row =
     (if valid_move ops board_state (col, row) (new_col, new_row)
      then Inr (MoveObj (col, row) (new_col, new_row))
      else Inl InvalidMoveError)"

text \<open>
  \<open>random.randint(a, b)\<close> returns an integer \<open>N\<close> with \<open>a \<le> N \<le> b\<close>.  The argument
  \<open>draw\<close> is the state of the random source; every value of the range is the result for
  some draw.  The sources call it with \<open>a = 0\<close> and \<open>b = len(poss_moves) - 1 \<ge> 0\<close> only.
\<close>

definition randint :: "nat \<Rightarrow> int \<Rightarrow> int \<Rightarrow> int" where
  "randint draw a b = a + int draw mod (b - a + 1)"

section \<open>\<open>moving_strategy.py\<close>\<close>

subsection \<open>\<open>do_random_move\<close> (lines 14--37)\<close>

definition do_random_move :: "'b collab \<Rightarrow> 'b \<Rightarrow> string \<Rightarrow> nat \<Rightarrow> 'b action option" where
  "do_random_move ops board_state enemy draw =
     (let poss_moves =
            (if enemy = ''@'' then generate_moves ops board_state ''W''
             else generate_moves ops board_state ''B'')
      in if length poss_moves \<noteq> 0 then
           (let mv = poss_moves ! nat (randint draw 0 (int (length poss_moves) - 1))
            in Some (Action board_state enemy None (Some mv)))
         else None)"

subsection \<open>\<open>move_towards_centre\<close> (lines 96--129)\<close>

text \<open>
  \<open>InvalidMoveError\<close> is the only failure of \<open>Move\<close>, and the \<open>except\<close> clause turns it
  into the result \<open>None\<close>.
\<close>

definition move_towards_centre ::
  "'b collab \<Rightarrow> 'b \<Rightarrow> int \<Rightarrow> int \<Rightarrow> string \<Rightarrow> coord option" where
  "move_towards_centre ops board_state col row enemy =
     (let new_row = row;
          new_col = (if col > 5 then col - 1 else if col < 3 then col + 1 else col)
      in if new_col \<noteq> col then
           (case Move ops board_state col row new_col new_row of
              Inl e \<Rightarrow> None
            | Inr m \<Rightarrow> Some (new_col, new_row))
         else
           (let new_row = (if row > 5 then row - 1 else if row < 3 then row + 1 else row)
            in if new_row \<noteq> row then
                 (case Move ops board_state col row new_col new_row of
                    Inl e \<Rightarrow> None
                  | Inr m \<Rightarrow> Some (new_col, new_row))
               else None))"

subsection \<open>\<open>move_to_centre_algorithm\<close> (lines 132--152)\<close>

text \<open>
  The inner loop over one \<open>tile_list\<close>: \<open>Inr (Some move)\<close> is the \<open>return move\<close> of line
  152, \<open>Inr None\<close> is the loop running to its end, \<open>Inl\<close> an exception that escapes.
\<close>

fun scan_tiles ::
  "'b collab \<Rightarrow> 'b \<Rightarrow> string \<Rightarrow> string \<Rightarrow> coord list \<Rightarrow> error + move option" where
  "scan_tiles ops board_state enemy player [] = Inr None"
| "scan_tiles ops board_state enemy player (t # ts) =
     (case output_piece ops board_state (fst t) (snd t) of
        Inl e \<Rightarrow> Inl e
      | Inr p \<Rightarrow>
          if p = player then
            (case move_towards_centre ops board_state (fst t) (snd t) enemy of
               Some destination \<Rightarrow>
                 (case Move ops board_state (fst t) (snd t) (fst destination) (snd destination) of
                    Inl e \<Rightarrow> Inl e
                  | Inr m \<Rightarrow> Inr (Some m))
             | None \<Rightarrow> scan_tiles ops board_state enemy player ts)
          else scan_tiles ops board_state enemy player ts)"

text \<open>The outer loop \<open>for x in range(3)\<close>, over the ranks it is given.\<close>

fun scan_ranks ::
  "'b collab \<Rightarrow> 'b \<Rightarrow> string \<Rightarrow> string \<Rightarrow> int list \<Rightarrow> error + move option" where
  "scan_ranks ops board_state enemy player [] = Inr None"
| "scan_ranks ops board_state enemy player (x # xs) =
     (case find_tiles_of_rank x of
        Inl e \<Rightarrow> Inl e
      | Inr tile_list \<Rightarrow>
          (case scan_tiles ops board_state enemy player tile_list of
             Inl e \<Rightarrow> Inl e
           | Inr (Some m) \<Rightarrow> Inr (Some m)
           | Inr None \<Rightarrow> scan_ranks ops board_state enemy player xs))"

definition move_to_centre_algorithm ::
  "'b collab \<Rightarrow> 'b \<Rightarrow> string \<Rightarrow> string \<Rightarrow> move list \<Rightarrow> error + move option" where
  "move_to_centre_algorithm ops board_state enemy player possmoves =
     scan_ranks ops board_state enemy player [0, 1, 2]"

subsection \<open>Board objects in a store\<close>

text \<open>
  \<open>check_move_for_elimination\<close> and \<open>evalutate_this_move\<close> receive a reference to a
  board, build a second board object and mutate it.  Board objects therefore live in a
  store, addressed by their position; a reference is an address.
\<close>

type_synonym 'b store = "'b list"

text \<open>
  Modelled from the spec: \<open>BoardState(None, board_state)\<close>, the copying constructor of
  the missing \<open>board_state.py\<close>, allocates a new object whose contents equal those of
  \<open>board_state\<close> and shares nothing with it ("board copies ... are private, disposable,
  and never shared"); and \<open>modify\<close>, applied to an object of the store, writes to that
  object only ("exactly one writer mutates a given BoardState at a time").
\<close>

definition BoardState_copy :: "'b store \<Rightarrow> nat \<Rightarrow> nat \<times> 'b store" where
  "BoardState_copy h other = (length h, h @ [h ! other])"

definition modify_at ::
  "'b collab \<Rightarrow> 'b store \<Rightarrow> nat \<Rightarrow> 'b action option \<Rightarrow> string \<Rightarrow> 'b store" where
  "modify_at ops h r a e = h[r := modify ops (h ! r) a e]"

subsection \<open>\<open>check_move_for_elimination\<close> (lines 155--171)\<close>

definition check_move_for_elimination ::
  "'b collab \<Rightarrow> 'b store \<Rightarrow> nat \<Rightarrow> string \<Rightarrow> string \<Rightarrow> move \<Rightarrow> bool \<times> 'b store" where
  "check_move_for_elimination ops h board_state enemy player mv =
     (let (temp_board_state, h1) = BoardState_copy h board_state;
          act = Action (h1 ! board_state) enemy None (Some mv);
          h2 = modify_at ops h1 temp_board_state (Some act) enemy;
          enemy = (if enemy = ''O'' then ''W'' else enemy)
      in if length (search_board ops (h2 ! temp_board_state) enemy)
            = length (search_board ops (h2 ! board_state) enemy)
         then (False, h2)
         else (True, h2))"

subsection \<open>\<open>check_easy_elimination\<close> (lines 174--208)\<close>

text \<open>
  The loop of lines 198--202 from an empty \<open>move_list\<close>: the list it leaves behind is
  empty, or holds the move at which the loop broke off.
\<close>

fun first_elimination ::
  "'b collab \<Rightarrow> 'b store \<Rightarrow> nat \<Rightarrow> string \<Rightarrow> string \<Rightarrow> move list
     \<Rightarrow> move option list \<times> 'b store" where
  "first_elimination ops h board_state enemy player [] = ([], h)"
| "first_elimination ops h board_state enemy player (mv # rest) =
     (case check_move_for_elimination ops h board_state enemy player mv of
        (True, h') \<Rightarrow> ([Some mv], h')
      | (False, h') \<Rightarrow> first_elimination ops h' board_state enemy player rest)"

text \<open>
  The elements of the returned list are \<open>Move\<close> objects or \<open>None\<close> (the result of
  \<open>move_to_centre_algorithm\<close> is appended as it is).
\<close>

definition check_easy_elimination ::
  "'b collab \<Rightarrow> 'b store \<Rightarrow> nat \<Rightarrow> string \<Rightarrow> string \<Rightarrow> nat
     \<Rightarrow> error + (move option list \<times> 'b store)" where
  "check_easy_elimination ops h board_state enemy player draw =
     (let move_list = [];
          poss_moves =
            (if enemy = ''@'' then generate_moves ops (h ! board_state) ''W''
             else generate_moves ops (h ! board_state) ''B'')
      in if length poss_moves \<noteq> 0 then
           (let (move_list, h1) = first_elimination ops h board_state enemy player poss_moves
            in case move_to_centre_algorithm ops (h1 ! board_state) enemy player poss_moves of
                 Inl e \<Rightarrow> Inl e
               | Inr centre \<Rightarrow>
                   Inr (move_list @ [centre]
                          @ [Some (poss_moves ! nat (randint draw 0 (int (length poss_moves) - 1)))],
                        h1))
         else Inr (move_list, h))"

subsection \<open>\<open>evalutate_this_move\<close> (lines 211--217)\<close>

definition evalutate_this_move ::
  "'b collab \<Rightarrow> 'b store \<Rightarrow> nat \<Rightarrow> string \<Rightarrow> string \<Rightarrow> move \<Rightarrow> int \<times> 'b store" where
  "evalutate_this_move ops h board_state enemy player mv =
     (let (temp_board_state, h1) = BoardState_copy h board_state;
          act = Action (h1 ! board_state) enemy None (Some mv);
          h2 = modify_at ops h1 temp_board_state (Some act) enemy;
          enemy = (if enemy = ''O'' then ''W'' else enemy)
      in (int (length (search_board ops (h2 ! temp_board_state) player))
            - int (length (search_board ops (h2 ! board_state) enemy)),
          h2))"

subsection \<open>Notions used to state the properties\<close>

text \<open>
  The colour that lines 167--168 and 215--216 pass to \<open>search_board\<close> for the enemy; the
  board that results from applying a move, which is what lines 164--166 and 212--214
  build in the copy; and the colour for which lines 22--27 generate the moves.
\<close>

definition enemy_colour :: "string \<Rightarrow> string" where
  "enemy_colour enemy = (if enemy = ''O'' then ''W'' else enemy)"

definition simulate_move :: "'b collab \<Rightarrow> 'b \<Rightarrow> string \<Rightarrow> move \<Rightarrow> 'b" where
  "simulate_move ops b enemy mv = modify ops b (Some (Action b enemy None (Some mv))) enemy"

definition acting_colour :: "string \<Rightarrow> string" where
  "acting_colour enemy = (if enemy = ''@'' then ''W'' else ''B'')"







section \<open>\<open>player.py\<close>\<close>

text \<open>
  The fields of a \<open>Player\<close> object.  \<open>shrink_calls\<close> is not a field of the source: it
  records, for each invocation of \<open>self.board.shrink_board()\<close>, the value of
  \<open>self.total_turns\<close> at that moment, oldest first.
\<close>

record 'b player =
  self_enemy :: string
  self_piece :: string
  self_board :: "'b"
  self_total_actions :: int
  self_total_turns :: int
  self_phase :: string
  shrink_calls :: "int list"

definition Player_init :: "'b collab \<Rightarrow> string \<Rightarrow> 'b player" where
  "Player_init ops colour =
     \<lparr> self_enemy = (if colour = ''white'' then ''@'' else ''O''),
       self_piece = (if colour = ''white'' then ''O'' else ''@''),
       self_board = new_board ops,
       self_total_actions = 0,
       self_total_turns = 0,
       self_phase = ''placing'',
       shrink_calls = [] \<rparr>"

definition call_shrink_board :: "'b collab \<Rightarrow> 'b player \<Rightarrow> 'b player" where
  "call_shrink_board ops p =
     p\<lparr> self_board := shrink_board ops (self_board p),
        shrink_calls := shrink_calls p @ [self_total_turns p] \<rparr>"

text \<open>
  \<open>Player.action\<close> (lines 39--78): the value returned to the referee and the object
  after the call.  \<open>draw\<close> is the state of the random source.
\<close>

definition Player_action ::
  "'b collab \<Rightarrow> 'b player \<Rightarrow> int \<Rightarrow> nat \<Rightarrow> ref_action option \<times> 'b player" where
  "Player_action ops p turns draw =
     (let act = (if self_phase p = ''placing''
                 then do_random_place ops (self_board p) (self_enemy p) draw
                 else do_random_move ops (self_board p) (self_enemy p) draw);
          p = p\<lparr> self_board := modify ops (self_board p) act (self_enemy p) \<rparr>;
          p = p\<lparr> self_total_actions := self_total_actions p + 1 \<rparr>;
          p = p\<lparr> self_total_turns := turns \<rparr>;
          p = (if self_phase p = ''placing'' then
                 (if self_total_actions p = 12
                  then p\<lparr> self_phase := ''moving'', self_total_turns := 0 \<rparr>
                  else p)
               else p);
          p = (if self_phase p = ''moving'' then
                 (if self_total_turns p = 127 then call_shrink_board ops p
                  else if self_total_turns p = 191 then call_shrink_board ops p
                  else p)
               else p)
      in (case act of None \<Rightarrow> None | Some a \<Rightarrow> return_action ops a, p))"

text \<open>\<open>Player.update\<close> (lines 80--100); it returns \<open>None\<close>, so the result is the object.\<close>

definition Player_update :: "'b collab \<Rightarrow> 'b player \<Rightarrow> ref_action option \<Rightarrow> 'b player" where
  "Player_update ops p opp =
     (let p = p\<lparr> self_total_turns := self_total_turns p + 1 \<rparr>;
          p = p\<lparr> self_board :=
                  modify ops (self_board p)
                    (Some (Action (self_board p) (self_piece p) opp None)) (self_piece p) \<rparr>;
          p = (if self_phase p = ''moving'' then
                 (if self_total_turns p = 127 then call_shrink_board ops p
                  else if self_total_turns p = 191 then call_shrink_board ops p
                  else p)
               else p)
      in p)"

subsection \<open>Sequences of calls\<close>

text \<open>
  A call of the referee on the object: \<open>action(turns)\<close>, with the state of the random
  source at that call, or \<open>update(action)\<close>.
\<close>

datatype call = ActionCall int nat | UpdateCall "ref_action option"

fun do_call :: "'b collab \<Rightarrow> 'b player \<Rightarrow> call \<Rightarrow> 'b player" where
  "do_call ops p (ActionCall turns draw) = snd (Player_action ops p turns draw)"
| "do_call ops p (UpdateCall opp) = Player_update ops p opp"

fun run_calls :: "'b collab \<Rightarrow> 'b player \<Rightarrow> call list \<Rightarrow> 'b player" where
  "run_calls ops p [] = p"
| "run_calls ops p (c # cs) = run_calls ops (do_call ops p c) cs"

definition is_action_call :: "call \<Rightarrow> bool" where
  "is_action_call c = (case c of ActionCall turns draw \<Rightarrow> True | UpdateCall opp \<Rightarrow> False)"

text \<open>
  Modelled from the spec: the calling discipline of the referee, which is not part of the
  repository ("\<open>action(turnsSoFarInPhase)\<close>: requested once per agent turn";
  "\<open>update(opponentAction)\<close>: ingests the most recent opponent Action").  The two
  players move in turn, white first; the player whose turn it is receives \<open>action\<close>
  with the number of turns played so far in the current phase (the docstring of
  \<open>Player.action\<close>), the other player then receives \<open>update\<close>.  The placing phase
  has 24 turns, twelve pieces a side, after which the count starts again at 0.
  \<open>referee_calls first draws opp n\<close> are the calls one player receives during the
  first \<open>n\<close> turns of a game; \<open>first\<close> says that the player is white.
\<close>

definition phase_turn :: "nat \<Rightarrow> int" where
  "phase_turn k = (if k < 24 then int k else int k - 24)"

definition referee_call ::
  "bool \<Rightarrow> (nat \<Rightarrow> nat) \<Rightarrow> (nat \<Rightarrow> ref_action option) \<Rightarrow> nat \<Rightarrow> call" where
  "referee_call first draws opp k =
     (if even k = first then ActionCall (phase_turn k) (draws k) else UpdateCall (opp k))"

definition referee_calls ::
  "bool \<Rightarrow> (nat \<Rightarrow> nat) \<Rightarrow> (nat \<Rightarrow> ref_action option) \<Rightarrow> nat \<Rightarrow> call list" where
  "referee_calls first draws opp n = map (referee_call first draws opp) [0..<n]"

section \<open>An implementation of the collaborators\<close>

text \<open>
  Modelled from the spec: the class \<open>BoardState\<close> of the missing \<open>board_state.py\<close>
  ("grid-and-region model: cell occupancy, active/inactive region").  The occupied cells
  with their piece symbol (\<open>'O'\<close> white, \<open>'@'\<close> black), and the number of shrink events
  so far: the active region is the square from \<open>margin\<close> to \<open>7 - margin\<close> on both axes,
  and its four corner cells are the corners.
\<close>

record sboard =
  sb_pieces :: "(coord \<times> string) list"
  sb_margin :: int

text \<open>
  Modelled from the spec: the active-region mask and the corner cells of the missing
  \<open>BoardState\<close>.
\<close>

definition sb_active :: "sboard \<Rightarrow> coord \<Rightarrow> bool" where
  "sb_active b t =
     (sb_margin b \<le> fst t \<and> fst t \<le> 7 - sb_margin b
      \<and> sb_margin b \<le> snd t \<and> snd t \<le> 7 - sb_margin b)"

definition sb_corner :: "sboard \<Rightarrow> coord \<Rightarrow> bool" where
  "sb_corner b t =
     ((fst t = sb_margin b \<or> fst t = 7 - sb_margin b)
      \<and> (snd t = sb_margin b \<or> snd t = 7 - sb_margin b))"

text \<open>
  Modelled from the spec: \<open>BoardState.output_piece\<close>, missing from the sources ("read
  occupancy; undefined/error for inactive or out-of-range coordinates"): the symbol of the
  piece, \<open>'-'\<close> for an empty cell, \<open>'X'\<close> for a corner.
\<close>

definition sb_at :: "sboard \<Rightarrow> coord \<Rightarrow> string" where
  "sb_at b t =
     (if sb_corner b t then ''X''
      else case map_of (sb_pieces b) t of None \<Rightarrow> ''-'' | Some s \<Rightarrow> s)"

definition sb_output_piece :: "sboard \<Rightarrow> int \<Rightarrow> int \<Rightarrow> error + string" where
  "sb_output_piece b col row =
     (if sb_active b (col, row) then Inr (sb_at b (col, row)) else Inl BoardError)"

text \<open>
  Modelled from the spec: the colour encoding of the missing modules ("two distinct
  symbols for the two sides").  The sources name a side by its piece symbol (\<open>'O'\<close>,
  \<open>'@'\<close>) or by its colour letter (\<open>'W'\<close>, \<open>'B'\<close>); both are accepted.
\<close>

definition side_symbol :: "string \<Rightarrow> string" where
  "side_symbol c = (if c = ''W'' \<or> c = ''O'' then ''O'' else ''@'')"

definition other_symbol :: "string \<Rightarrow> string" where
  "other_symbol c = (if side_symbol c = ''O'' then ''@'' else ''O'')"

text \<open>
  Modelled from the spec: \<open>BoardState.search_board\<close>, missing from the sources ("ordered
  collection of coordinates holding that color").
\<close>

definition sb_search_board :: "sboard \<Rightarrow> string \<Rightarrow> coord list" where
  "sb_search_board b colour =
     map fst (filter (\<lambda>ts. snd ts = side_symbol colour) (sb_pieces b))"

text \<open>
  Modelled from the spec: the validation of the missing constructor \<open>Move\<close> ("constructing
  a Move against an occupied, inactive, or out-of-range destination raises an InvalidMove
  condition"); a move is a step to an adjacent cell or a jump over an adjacent occupied cell.
\<close>

definition sb_empty :: "sboard \<Rightarrow> coord \<Rightarrow> bool" where
  "sb_empty b t = (sb_active b t \<and> sb_at b t = ''-'')"

definition sb_occupied :: "sboard \<Rightarrow> coord \<Rightarrow> bool" where
  "sb_occupied b t = (sb_active b t \<and> (sb_at b t = ''O'' \<or> sb_at b t = ''@''))"

definition sb_valid_move :: "sboard \<Rightarrow> coord \<Rightarrow> coord \<Rightarrow> bool" where
  "sb_valid_move b s d =
     (let dc = fst d - fst s; dr = snd d - snd s
      in sb_occupied b s \<and> sb_empty b d
         \<and> (\<bar>dc\<bar> + \<bar>dr\<bar> = 1
            \<or> \<bar>dc\<bar> + \<bar>dr\<bar> = 2 \<and> (dc = 0 \<or> dr = 0)
               \<and> sb_occupied b (fst s + dc div 2, snd s + dr div 2)))"

text \<open>
  Modelled from the spec: \<open>generate_moves\<close> of the missing \<open>move.py\<close> ("for every active
  cell occupied by color, a step move to each orthogonally adjacent empty active cell, and
  a jump move over an adjacent occupied cell ... only if that landing cell is empty and
  active"), in a fixed order.
\<close>

definition directions :: "coord list" where
  "directions = [(1, 0), (-1, 0), (0, 1), (0, -1)]"

definition towards :: "coord \<Rightarrow> coord \<Rightarrow> int \<Rightarrow> coord" where
  "towards t d k = (fst t + k * fst d, snd t + k * snd d)"

definition sb_moves_of :: "sboard \<Rightarrow> coord \<Rightarrow> move list" where
  "sb_moves_of b t =
     concat (map (\<lambda>d. if sb_empty b (towards t d 1) then [MoveObj t (towards t d 1)]
                       else if sb_occupied b (towards t d 1) \<and> sb_empty b (towards t d 2)
                       then [MoveObj t (towards t d 2)]
                       else []) directions)"

definition sb_generate_moves :: "sboard \<Rightarrow> string \<Rightarrow> move list" where
  "sb_generate_moves b colour =
     concat (map (sb_moves_of b) (filter (sb_active b) (sb_search_board b colour)))"

text \<open>
  Modelled from the spec: \<open>BoardState.modify\<close>, missing from the sources ("applies a
  placement or a move atomically, then resolves captures"), with the custodial capture
  rule: a piece of the other side next to the destination is removed when the cell beyond
  it holds a piece of the mover or is a corner.  The second argument of \<open>modify\<close> names the
  enemy of the side that acts.  A forfeit changes nothing.
\<close>

definition sb_captured :: "sboard \<Rightarrow> string \<Rightarrow> coord \<Rightarrow> coord \<times> string \<Rightarrow> bool" where
  "sb_captured b mover dest ts =
     (snd ts = other_symbol mover
      \<and> list_ex (\<lambda>d. fst ts = towards dest d 1
                     \<and> (sb_corner b (towards dest d 2) \<or> sb_at b (towards dest d 2) = mover))
          directions)"

definition sb_resolve :: "sboard \<Rightarrow> string \<Rightarrow> coord \<Rightarrow> sboard" where
  "sb_resolve b mover dest =
     b\<lparr> sb_pieces := filter (\<lambda>ts. \<not> sb_captured b mover dest ts) (sb_pieces b) \<rparr>"

definition sb_put :: "sboard \<Rightarrow> string \<Rightarrow> coord \<Rightarrow> sboard" where
  "sb_put b mover t = sb_resolve (b\<lparr> sb_pieces := sb_pieces b @ [(t, mover)] \<rparr>) mover t"

definition sb_shift :: "sboard \<Rightarrow> string \<Rightarrow> coord \<Rightarrow> coord \<Rightarrow> sboard" where
  "sb_shift b mover s d =
     sb_resolve (b\<lparr> sb_pieces := map (\<lambda>ts. if fst ts = s then (d, snd ts) else ts) (sb_pieces b) \<rparr>)
       mover d"

fun sb_modify :: "sboard \<Rightarrow> sboard action option \<Rightarrow> string \<Rightarrow> sboard" where
  "sb_modify b None enemy = b"
| "sb_modify b (Some (Action b0 e ra (Some (MoveObj s d)))) enemy =
     sb_shift b (other_symbol enemy) s d"
| "sb_modify b (Some (Action b0 e (Some (Movement s d)) None)) enemy =
     sb_shift b (other_symbol enemy) s d"
| "sb_modify b (Some (Action b0 e (Some (Placement t)) None)) enemy =
     sb_put b (other_symbol enemy) t"
| "sb_modify b (Some (Action b0 e None None)) enemy = b"

text \<open>
  Modelled from the spec: \<open>BoardState.shrink_board\<close>, missing from the sources
  ("deactivates the current outermost active ring and eliminates any piece found there").
\<close>

definition sb_shrink_board :: "sboard \<Rightarrow> sboard" where
  "sb_shrink_board b =
     (let b' = b\<lparr> sb_margin := sb_margin b + 1 \<rparr>
      in b'\<lparr> sb_pieces := filter (\<lambda>ts. sb_active b' (fst ts)) (sb_pieces b) \<rparr>)"

text \<open>
  Modelled from the spec: \<open>do_random_place\<close> of the missing \<open>placing_strategy.py\<close> and
  \<open>Action.return_action\<close> of the missing \<open>action.py\<close>.  A placement goes to an empty
  active cell chosen by the random draw; \<open>return_action\<close> gives the tuple of the action.
\<close>

definition all_cells :: "coord list" where
  "all_cells = concat (map (\<lambda>r. map (\<lambda>c. (c, r)) [0, 1, 2, 3, 4, 5, 6, 7]) [0, 1, 2, 3, 4, 5, 6, 7])"

definition sb_do_random_place :: "sboard \<Rightarrow> string \<Rightarrow> nat \<Rightarrow> sboard action option" where
  "sb_do_random_place b enemy draw =
     (let free = filter (sb_empty b) all_cells
      in if free = [] then None
         else Some (Action b enemy (Some (Placement (free ! (draw mod length free)))) None))"

fun sb_return_action :: "sboard action \<Rightarrow> ref_action option" where
  "sb_return_action (Action b0 e ra (Some (MoveObj s d))) = Some (Movement s d)"
| "sb_return_action (Action b0 e ra None) = ra"

text \<open>
  Modelled from the spec: the collaborators above, as one implementation of \<open>collab\<close>.
\<close>

definition sb_ops :: "sboard collab" where
  "sb_ops =
     \<lparr> new_board = \<lparr> sb_pieces = [], sb_margin = 0 \<rparr>,
       output_piece = sb_output_piece,
       modify = sb_modify,
       shrink_board = sb_shrink_board,
       search_board = sb_search_board,
       valid_move = sb_valid_move,
       generate_moves = sb_generate_moves,
       do_random_place = sb_do_random_place,
       return_action = sb_return_action \<rparr>"

text \<open>
  A board before any shrink: black (\<open>'@'\<close>) stands on (2,3) and (4,4) and white (\<open>'O'\<close>)
  on (3,3), so that the black move from (4,4) to (4,3) flanks the white piece.
\<close>

definition flank_board :: sboard where
  "flank_board = \<lparr> sb_pieces = [((2, 3), ''@''), ((4, 4), ''@''), ((3, 3), ''O'')], sb_margin = 0 \<rparr>"

text \<open>
  On \<open>bare_board\<close> white has one piece and black has none; \<open>stuck_player\<close> is a black
  player in the moving phase that holds this board.
\<close>

definition bare_board :: sboard where
  "bare_board = \<lparr> sb_pieces = [((3, 3), ''O'')], sb_margin = 0 \<rparr>"

definition stuck_player :: "sboard player" where
  "stuck_player =
     \<lparr> self_enemy = ''O'', self_piece = ''@'', self_board = bare_board,
       self_total_actions = 20, self_total_turns = 16, self_phase = ''moving'',
       shrink_calls = [] \<rparr>"



text \<open>
  A script of a game for the closed examples: the random source always in state 0, and an
  opponent that places its twelve pieces on rows 6 and 7 and forfeits afterwards.
\<close>

definition sample_draws :: "nat \<Rightarrow> nat" where
  "sample_draws k = 0"

definition sample_opp :: "nat \<Rightarrow> ref_action option" where
  "sample_opp k =
     (if k < 24 then Some (Placement (int (k div 2 mod 6) + 1, 6 + int (k div 12)))
      else None)"

section \<open>Invariant of the phase\<close>

text \<open>
  The phase is \<open>'placing'\<close> while the object has answered fewer than twelve \<open>action\<close>
  calls and \<open>'moving'\<close> from the twelfth on.
\<close>

definition phase_inv :: "'b player \<Rightarrow> bool" where
  "phase_inv p =
     (self_phase p = ''placing'' \<and> self_total_actions p < 12
      \<or> self_phase p = ''moving'' \<and> 12 \<le> self_total_actions p)"

section \<open>Properties of \<open>find_tiles_of_rank\<close>\<close>

lemma rank_cases:
  fixes r :: int
  assumes "0 \<le> r" "r \<le> 3"
  shows "r = 0 \<or> r = 1 \<or> r = 2 \<or> r = 3"
  using assms by arith

lemma find_tiles_of_rank_Inr:
  assumes "find_tiles_of_rank r = Inr tiles"
  shows "r = 0 \<or> r = 1 \<or> r = 2 \<or> r = 3"
  using assms by (auto simp: find_tiles_of_rank_def tile_dict_def split: if_splits)

lemma find_tiles_of_rank_total:
  assumes "r = 0 \<or> r = 1 \<or> r = 2 \<or> r = 3"
  shows "\<exists>tiles. find_tiles_of_rank r = Inr tiles"
  using assms by (auto simp: find_tiles_of_rank_def tile_dict_def)

lemma tiles_disjoint_01:
  "find_tiles_of_rank 0 = Inr a \<Longrightarrow> find_tiles_of_rank 1 = Inr b \<Longrightarrow> set a \<inter> set b = {}"
  by (auto simp: find_tiles_of_rank_def tile_dict_def)

lemma tiles_disjoint_02:
  "find_tiles_of_rank 0 = Inr a \<Longrightarrow> find_tiles_of_rank 2 = Inr b \<Longrightarrow> set a \<inter> set b = {}"
  by (auto simp: find_tiles_of_rank_def tile_dict_def)

lemma tiles_disjoint_03:
  "find_tiles_of_rank 0 = Inr a \<Longrightarrow> find_tiles_of_rank 3 = Inr b \<Longrightarrow> set a \<inter> set b = {}"
  by (auto simp: find_tiles_of_rank_def tile_dict_def)

lemma tiles_disjoint_12:
  "find_tiles_of_rank 1 = Inr a \<Longrightarrow> find_tiles_of_rank 2 = Inr b \<Longrightarrow> set a \<inter> set b = {}"
  by (auto simp: find_tiles_of_rank_def tile_dict_def)

lemma tiles_disjoint_13:
  "find_tiles_of_rank 1 = Inr a \<Longrightarrow> find_tiles_of_rank 3 = Inr b \<Longrightarrow> set a \<inter> set b = {}"
  by (auto simp: find_tiles_of_rank_def tile_dict_def)

lemma tiles_disjoint_23:
  "find_tiles_of_rank 2 = Inr a \<Longrightarrow> find_tiles_of_rank 3 = Inr b \<Longrightarrow> set a \<inter> set b = {}"
  by (auto simp: find_tiles_of_rank_def tile_dict_def)

lemma tiles_disjoint:
  assumes a: "find_tiles_of_rank r = Inr a" and b: "find_tiles_of_rank r' = Inr b"
    and ne: "r \<noteq> r'"
  shows "set a \<inter> set b = {}"
proof -
  note d = tiles_disjoint_01 tiles_disjoint_02 tiles_disjoint_03
    tiles_disjoint_12 tiles_disjoint_13 tiles_disjoint_23
  have "r < r' \<or> r' < r" using ne by arith
  then show ?thesis
  proof
    assume "r < r'"
    with find_tiles_of_rank_Inr [OF a] find_tiles_of_rank_Inr [OF b] a b
    show ?thesis by (elim disjE) (simp_all add: d)
  next
    assume "r' < r"
    with find_tiles_of_rank_Inr [OF a] find_tiles_of_rank_Inr [OF b] a b
    have "set b \<inter> set a = {}" by (elim disjE) (simp_all add: d)
    then show ?thesis by (simp add: Int_commute)
  qed
qed

lemma tiles_ok:
  assumes "find_tiles_of_rank r = Inr tiles" and "t \<in> set tiles"
  shows "in_grid t \<and> t \<notin> set grid_corners"
  using assms
  by (auto simp: find_tiles_of_rank_def tile_dict_def in_grid_def grid_corners_def
      split: if_splits)

text \<open>
  C9.  For every rank \<open>r\<close> from 0 to 3, \<open>find_tiles_of_rank r\<close> returns a list (no
  \<open>KeyError\<close>); every coordinate of the list lies inside the 8x8 grid and is none of
  the four corner cells; and the list shares no coordinate with the list of any other
  rank.
\<close>

theorem find_tiles_of_rank_cells:
  assumes "0 \<le> r" "r \<le> 3"
  shows "\<exists>tiles. find_tiles_of_rank r = Inr tiles \<and>
      (\<forall>t \<in> set tiles. in_grid t \<and> t \<notin> set grid_corners) \<and>
      (\<forall>r' tiles'. r' \<noteq> r \<and> find_tiles_of_rank r' = Inr tiles'
          \<longrightarrow> set tiles \<inter> set tiles' = {})"
proof -
  from find_tiles_of_rank_total [OF rank_cases [OF assms]]
  obtain tiles where t: "find_tiles_of_rank r = Inr tiles" ..
  have "\<forall>t \<in> set tiles. in_grid t \<and> t \<notin> set grid_corners"
    using tiles_ok [OF t] by blast
  moreover have "\<forall>r' tiles'. r' \<noteq> r \<and> find_tiles_of_rank r' = Inr tiles'
          \<longrightarrow> set tiles \<inter> set tiles' = {}"
    using tiles_disjoint [OF t] by blast
  ultimately show ?thesis using t by blast
qed

theorem find_tiles_of_rank_cells_witness:
  "(0::int) \<le> 2 \<and> (2::int) \<le> 3 \<and>
   find_tiles_of_rank 2 =
     Inr [(2, 2), (2, 3), (2, 4), (2, 5), (3, 2), (4, 2),
          (3, 5), (4, 5), (5, 2), (5, 3), (5, 4), (5, 5)] \<and>
   in_grid (5, 5) \<and> (5, 5) \<notin> set grid_corners \<and>
   set [(2, 2), (2, 3), (2, 4), (2, 5), (3, 2), (4, 2),
        (3, 5), (4, 5), (5, 2), (5, 3), (5, 4), (5, 5)]
     \<inter> set [(3, 3), (3, 4), (4, 3), (4::int, 4::int)] = {}"
proof -
  have "(0::int) \<le> 2" "(2::int) \<le> 3" by simp_all
  from find_tiles_of_rank_cells [OF this] obtain tiles where
    t: "find_tiles_of_rank 2 = Inr tiles"
    and ok: "\<forall>t \<in> set tiles. in_grid t \<and> t \<notin> set grid_corners"
    and dis: "\<forall>r' tiles'. r' \<noteq> 2 \<and> find_tiles_of_rank r' = Inr tiles'
          \<longrightarrow> set tiles \<inter> set tiles' = {}"
    by blast
  have t2: "find_tiles_of_rank 2 =
     Inr [(2, 2), (2, 3), (2, 4), (2, 5), (3, 2), (4, 2),
          (3, 5), (4, 5), (5, 2), (5, 3), (5, 4), (5, 5)]"
    by (simp add: find_tiles_of_rank_def tile_dict_def)
  have t3: "find_tiles_of_rank 3 = Inr [(3, 3), (3, 4), (4, 3), (4, 4)]"
    by (simp add: find_tiles_of_rank_def tile_dict_def)
  from t t2 have tiles: "tiles = [(2, 2), (2, 3), (2, 4), (2, 5), (3, 2), (4, 2),
          (3, 5), (4, 5), (5, 2), (5, 3), (5, 4), (5, 5)]" by simp
  have "(3::int) \<noteq> 2" by simp
  with dis t3 have "set tiles \<inter> set [(3, 3), (3, 4), (4, 3), (4::int, 4::int)] = {}"
    by blast
  moreover have "(5, 5) \<in> set tiles" by (simp add: tiles)
  with ok have "in_grid (5, 5) \<and> (5, 5) \<notin> set grid_corners" by blast
  ultimately show ?thesis
    using t2 unfolding tiles by simp
qed

section \<open>Properties of \<open>Player\<close>\<close>

subsection \<open>The counters after one call\<close>

lemma action_phase:
  "self_phase (snd (Player_action ops p turns draw)) =
     (if self_phase p = ''placing'' \<and> self_total_actions p = 11 then ''moving''
      else self_phase p)"
  by (simp add: Player_action_def Let_def call_shrink_board_def)

lemma action_total_actions:
  "self_total_actions (snd (Player_action ops p turns draw)) = self_total_actions p + 1"
  by (simp add: Player_action_def Let_def call_shrink_board_def)

lemma action_total_turns:
  "self_total_turns (snd (Player_action ops p turns draw)) =
     (if self_phase p = ''placing'' \<and> self_total_actions p = 11 then 0 else turns)"
  by (simp add: Player_action_def Let_def call_shrink_board_def)

lemma action_shrink_calls:
  "shrink_calls (snd (Player_action ops p turns draw)) =
     (if self_phase p = ''moving'' \<and> (turns = 127 \<or> turns = 191)
      then shrink_calls p @ [turns] else shrink_calls p)"
  by (simp add: Player_action_def Let_def call_shrink_board_def)

lemma update_phase:
  "self_phase (Player_update ops p opp) = self_phase p"
  by (simp add: Player_update_def Let_def call_shrink_board_def)

lemma update_total_actions:
  "self_total_actions (Player_update ops p opp) = self_total_actions p"
  by (simp add: Player_update_def Let_def call_shrink_board_def)

lemma update_total_turns:
  "self_total_turns (Player_update ops p opp) = self_total_turns p + 1"
  by (simp add: Player_update_def Let_def call_shrink_board_def)

lemma update_shrink_calls:
  "shrink_calls (Player_update ops p opp) =
     (if self_phase p = ''moving'' \<and> (self_total_turns p = 126 \<or> self_total_turns p = 190)
      then shrink_calls p @ [self_total_turns p + 1] else shrink_calls p)"
  by (simp add: Player_update_def Let_def call_shrink_board_def)

lemmas call_fields =
  action_phase action_total_actions action_total_turns action_shrink_calls
  update_phase update_total_actions update_total_turns update_shrink_calls

lemma run_calls_append:
  "run_calls ops p (cs @ cs') = run_calls ops (run_calls ops p cs) cs'"
  by (induction cs arbitrary: p) simp_all

subsection \<open>The phase\<close>

lemma phase_inv_init: "phase_inv (Player_init ops colour)"
  by (simp add: phase_inv_def Player_init_def)

lemma phase_inv_call: "phase_inv p \<Longrightarrow> phase_inv (do_call ops p c)"
  by (cases c) (auto simp: phase_inv_def call_fields)

lemma total_actions_call:
  "self_total_actions (do_call ops p c) =
     self_total_actions p + (if is_action_call c then 1 else 0)"
  by (cases c) (simp_all add: call_fields is_action_call_def)

lemma phase_inv_run: "phase_inv p \<Longrightarrow> phase_inv (run_calls ops p cs)"
  by (induction cs arbitrary: p) (simp_all add: phase_inv_call)

lemma total_actions_run:
  "self_total_actions (run_calls ops p cs) =
     self_total_actions p + int (length (filter is_action_call cs))"
  by (induction cs arbitrary: p) (simp_all add: total_actions_call)

lemma moving_call: "self_phase p = ''moving'' \<Longrightarrow> self_phase (do_call ops p c) = ''moving''"
  by (cases c) (simp_all add: call_fields)

lemma moving_run: "self_phase p = ''moving'' \<Longrightarrow> self_phase (run_calls ops p cs) = ''moving''"
  by (induction cs arbitrary: p) (simp_all add: moving_call)

lemma referee_calls_Suc:
  "referee_calls first draws opp (Suc n) =
     referee_calls first draws opp n @ [referee_call first draws opp n]"
  by (simp add: referee_calls_def)

lemma run_referee_Suc:
  "run_calls ops p (referee_calls first draws opp (Suc n)) =
     do_call ops (run_calls ops p (referee_calls first draws opp n))
       (referee_call first draws opp n)"
  by (simp add: referee_calls_Suc run_calls_append)

lemma referee_actions:
  "length (filter is_action_call (referee_calls first draws opp n)) =
     (if first then (n + 1) div 2 else n div 2)"
proof (induction n)
  case 0
  show ?case by (simp add: referee_calls_def)
next
  case (Suc n)
  show ?case
    using Suc
    by (cases "even n")
      (auto simp: referee_calls_Suc referee_call_def is_action_call_def elim!: evenE oddE)
qed

lemma referee_moving:
  assumes "24 \<le> n"
  shows "self_phase (run_calls ops (Player_init ops colour)
           (referee_calls first draws opp n)) = ''moving''"
proof -
  let ?p = "run_calls ops (Player_init ops colour) (referee_calls first draws opp n)"
  have "phase_inv ?p" by (rule phase_inv_run [OF phase_inv_init])
  moreover have "self_total_actions ?p = int (if first then (n + 1) div 2 else n div 2)"
    by (simp add: total_actions_run Player_init_def referee_actions)
  ultimately show ?thesis using assms by (auto simp: phase_inv_def split: if_splits)
qed

lemma phase_turn_le: "phase_turn k \<le> int k"
  by (simp add: phase_turn_def)

lemma referee_early:
  "self_total_turns (run_calls ops (Player_init ops colour)
       (referee_calls first draws opp n)) \<le> int n
   \<and> (n < 127 \<longrightarrow> shrink_calls (run_calls ops (Player_init ops colour)
       (referee_calls first draws opp n)) = [])"
proof (induction n)
  case 0
  show ?case by (simp add: referee_calls_def Player_init_def)
next
  case (Suc n)
  let ?p = "run_calls ops (Player_init ops colour) (referee_calls first draws opp n)"
  from Suc have le: "self_total_turns ?p \<le> int n"
    and nil: "n < 127 \<Longrightarrow> shrink_calls ?p = []" by simp_all
  show ?case
  proof (cases "even n = first")
    case True
    then have c: "referee_call first draws opp n = ActionCall (phase_turn n) (draws n)"
      by (simp add: referee_call_def)
    show ?thesis
      using le nil phase_turn_le [of n]
      by (auto simp: run_referee_Suc c call_fields)
  next
    case False
    then have c: "referee_call first draws opp n = UpdateCall (opp n)"
      by (simp add: referee_call_def)
    show ?thesis
      using le nil by (auto simp: run_referee_Suc c call_fields)
  qed
qed

lemma referee_late:
  assumes "26 \<le> n"
  shows "self_total_turns (run_calls ops (Player_init ops colour)
             (referee_calls first draws opp n)) = int n - 25
     \<and> shrink_calls (run_calls ops (Player_init ops colour)
             (referee_calls first draws opp n)) = (if n < 152 then [] else if n < 216 then [127] else [127, 191])"
  using assms
proof (induction n rule: dec_induct)
  case base
  let ?q = "run_calls ops (Player_init ops colour) (referee_calls first draws opp 24)"
  let ?r = "run_calls ops (Player_init ops colour) (referee_calls first draws opp 25)"
  have s: "(26::nat) = Suc 25" "(25::nat) = Suc 24" by simp_all
  have mv: "self_phase ?r = ''moving''" by (rule referee_moving) simp
  have t: "self_total_turns (run_calls ops (Player_init ops colour)
             (referee_calls first draws opp 26)) = 1"
  proof (cases first)
    case True
    then show ?thesis
      unfolding s run_referee_Suc
      by (simp add: referee_call_def call_fields phase_turn_def)
  next
    case False
    then show ?thesis
      using mv unfolding s(1) run_referee_Suc
      by (simp add: referee_call_def call_fields phase_turn_def)
  qed
  have "shrink_calls (run_calls ops (Player_init ops colour)
             (referee_calls first draws opp 26)) = []"
    using referee_early [of ops colour first draws opp 26] by simp
  with t show ?case by simp
next
  case (step n)
  let ?p = "run_calls ops (Player_init ops colour) (referee_calls first draws opp n)"
  from step have tt: "self_total_turns ?p = int n - 25"
    and sc: "shrink_calls ?p = (if n < 152 then [] else if n < 216 then [127] else [127, 191])" by simp_all
  have mv: "self_phase ?p = ''moving''" using step by (intro referee_moving) simp
  have pt: "phase_turn n = int n - 24" using step by (simp add: phase_turn_def)
  show ?case
  proof (cases "even n = first")
    case True
    then have c: "referee_call first draws opp n = ActionCall (phase_turn n) (draws n)"
      by (simp add: referee_call_def)
    show ?thesis
      using tt sc mv pt step(1)
      by (auto simp: run_referee_Suc c call_fields)
  next
    case False
    then have c: "referee_call first draws opp n = UpdateCall (opp n)"
      by (simp add: referee_call_def)
    show ?thesis
      using tt sc mv step(1)
      by (auto simp: run_referee_Suc c call_fields)
  qed
qed

lemma moving_after_twelve:
  assumes "12 \<le> length (filter is_action_call cs)"
  shows "self_phase (run_calls ops (Player_init ops colour) cs) = ''moving''"
proof -
  let ?p = "run_calls ops (Player_init ops colour) cs"
  have "phase_inv ?p" by (rule phase_inv_run [OF phase_inv_init])
  moreover have "self_total_actions ?p = int (length (filter is_action_call cs))"
    by (simp add: total_actions_run Player_init_def)
  ultimately show ?thesis using assms by (auto simp: phase_inv_def)
qed

lemma moving_action_127:
  assumes "self_phase p = ''moving''"
  shows "shrink_calls (snd (Player_action ops p 127 d)) = shrink_calls p @ [127]"
    and "self_phase (snd (Player_action ops p 127 d)) = ''moving''"
  using assms by (simp_all add: call_fields)

text \<open>
  C1 (as amended).  When the referee calls the object in turn (\<open>action\<close> with the number
  of turns played so far in the phase, then \<open>update\<close>, white first, 24 placing turns),
  \<open>shrink_board\<close> has not been invoked during the first 151 turns of the game, has been
  invoked once, with the counter at 127, from turn 152 to turn 215, and twice, with the
  counter at 127 and then at 191, from turn 216 on; it is never invoked a third time.
\<close>

theorem shrink_board_schedule:
  "shrink_calls (run_calls ops (Player_init ops colour) (referee_calls first draws opp n)) =
     (if n < 152 then [] else if n < 216 then [127] else [127, 191])"
proof (cases "26 \<le> n")
  case True
  have "shrink_calls (run_calls ops (Player_init ops colour)
      (referee_calls first draws opp n)) = (if n < 152 then [] else if n < 216 then [127] else [127, 191])"
    using referee_late [OF True] by (rule conjunct2)
  then show ?thesis by simp
next
  case False
  have "n < 127 \<longrightarrow> shrink_calls (run_calls ops (Player_init ops colour)
      (referee_calls first draws opp n)) = []"
    using referee_early by (rule conjunct2)
  with False show ?thesis by simp
qed

theorem shrink_board_schedule_witness:
  "shrink_calls (run_calls sb_ops (Player_init sb_ops ''black'')
      (referee_calls False sample_draws sample_opp 300)) = [127, 191]"
  using shrink_board_schedule [of sb_ops "''black''" False sample_draws sample_opp 300]
  by simp

text \<open>
  The claim as stated fails: three \<open>action(127)\<close> calls in a row after the placing phase
  invoke \<open>shrink_board\<close> three times, each with the counter at 127; and a game that ends
  after 100 turns has not invoked it at all.
\<close>

theorem shrink_board_counterexample:
  "shrink_calls (run_calls sb_ops (Player_init sb_ops ''white'')
      (referee_calls True sample_draws sample_opp 24
         @ [ActionCall 127 0, ActionCall 127 0, ActionCall 127 0])) = [127, 127, 127]
   \<and> shrink_calls (run_calls sb_ops (Player_init sb_ops ''white'')
      (referee_calls True sample_draws sample_opp 100)) = []"
proof -
  let ?p = "run_calls sb_ops (Player_init sb_ops ''white'')
      (referee_calls True sample_draws sample_opp 24)"
  have mv: "self_phase ?p = ''moving''" by (rule referee_moving) simp
  have nil: "shrink_calls ?p = []"
    using referee_early [of sb_ops "''white''" True sample_draws sample_opp 24] by simp
  have "shrink_calls (run_calls sb_ops ?p
      [ActionCall 127 0, ActionCall 127 0, ActionCall 127 0]) = [127, 127, 127]"
    using mv nil by (simp add: moving_action_127)
  moreover have "shrink_calls (run_calls sb_ops (Player_init sb_ops ''white'')
      (referee_calls True sample_draws sample_opp 100)) = []"
    using referee_early [of sb_ops "''white''" True sample_draws sample_opp 100] by simp
  ultimately show ?thesis by (simp add: run_calls_append)
qed

text \<open>
  C5 (as amended).  For every sequence of calls, the phase of the agent is \<open>'moving'\<close>
  exactly when the agent itself has answered at least twelve \<open>action\<close> calls: the phase
  changes at the agent's own twelfth action, whatever the opponent has placed, and
  never before.
\<close>

theorem phase_moving_iff_twelve_actions:
  "self_phase (run_calls ops (Player_init ops colour) cs) = ''moving''
     \<longleftrightarrow> 12 \<le> length (filter is_action_call cs)"
proof -
  let ?p = "run_calls ops (Player_init ops colour) cs"
  have inv: "phase_inv ?p" by (rule phase_inv_run [OF phase_inv_init])
  have n: "self_total_actions ?p = int (length (filter is_action_call cs))"
    by (simp add: total_actions_run Player_init_def)
  show ?thesis using inv n by (auto simp: phase_inv_def)
qed

theorem phase_moving_iff_twelve_actions_witness:
  "self_phase (run_calls sb_ops (Player_init sb_ops ''black'')
      (referee_calls False sample_draws sample_opp 24)) = ''moving''
   \<and> self_phase (run_calls sb_ops (Player_init sb_ops ''black'')
      (referee_calls False sample_draws sample_opp 23)) \<noteq> ''moving''"
  using
    phase_moving_iff_twelve_actions [of sb_ops "''black''"
      "referee_calls False sample_draws sample_opp 24"]
    phase_moving_iff_twelve_actions [of sb_ops "''black''"
      "referee_calls False sample_draws sample_opp 23"]
  by (simp add: referee_actions)

text \<open>
  The claim as stated fails for the player that moves first: after its twelfth
  placement, turn 23 of the placing phase still to come, its phase is \<open>'moving'\<close>
  although it has received only eleven \<open>update\<close> calls and its board holds only eleven
  pieces of the opponent.
\<close>

lemma placed_counts:
  "length (search_board sb_ops (self_board (run_calls sb_ops (Player_init sb_ops ''white'')
      (referee_calls True sample_draws sample_opp 23))) ''B'') = 11"
  "length (search_board sb_ops (self_board (run_calls sb_ops (Player_init sb_ops ''white'')
      (referee_calls True sample_draws sample_opp 23))) ''W'') = 12"
  by code_simp+

theorem phase_switch_counterexample:
  "self_phase (run_calls sb_ops (Player_init sb_ops ''white'')
      (referee_calls True sample_draws sample_opp 23)) = ''moving''
   \<and> length (filter (\<lambda>c. \<not> is_action_call c)
        (referee_calls True sample_draws sample_opp 23)) = 11
   \<and> length (search_board sb_ops (self_board (run_calls sb_ops (Player_init sb_ops ''white'')
        (referee_calls True sample_draws sample_opp 23))) ''B'') = 11"
proof -
  have a: "length (filter is_action_call (referee_calls True sample_draws sample_opp 23)) = 12"
    by (simp add: referee_actions)
  have "length (referee_calls True sample_draws sample_opp 23) = 23"
    by (simp add: referee_calls_def)
  with sum_length_filter_compl [of is_action_call "referee_calls True sample_draws sample_opp 23"]
  have "length (filter is_action_call (referee_calls True sample_draws sample_opp 23))
      + length (filter (\<lambda>c. \<not> is_action_call c) (referee_calls True sample_draws sample_opp 23))
      = 23"
    by simp
  with a show ?thesis by (simp add: moving_after_twelve placed_counts)
qed

text \<open>
  C10.  After any sequence of \<open>action\<close> and \<open>update\<close> calls the phase is \<open>'placing'\<close> or
  \<open>'moving'\<close>, and once it is \<open>'moving'\<close> it is \<open>'moving'\<close> after every further sequence of
  calls.
\<close>

theorem phase_placing_then_moving:
  "(self_phase (run_calls ops (Player_init ops colour) cs) = ''placing''
      \<or> self_phase (run_calls ops (Player_init ops colour) cs) = ''moving'')
   \<and> (self_phase (run_calls ops (Player_init ops colour) cs) = ''moving''
        \<longrightarrow> self_phase (run_calls ops (Player_init ops colour) (cs @ cs')) = ''moving'')"
proof -
  let ?p = "run_calls ops (Player_init ops colour) cs"
  have "phase_inv ?p" by (rule phase_inv_run [OF phase_inv_init])
  then have "self_phase ?p = ''placing'' \<or> self_phase ?p = ''moving''"
    by (auto simp: phase_inv_def)
  moreover have "self_phase (run_calls ops (Player_init ops colour) (cs @ cs')) = ''moving''"
    if "self_phase ?p = ''moving''"
    using that by (simp add: run_calls_append moving_run)
  ultimately show ?thesis by blast
qed

theorem phase_placing_then_moving_witness:
  "self_phase (run_calls sb_ops (Player_init sb_ops ''white'')
      (referee_calls True sample_draws sample_opp 30)) = ''moving''
   \<and> self_phase (run_calls sb_ops (Player_init sb_ops ''white'')
      (referee_calls True sample_draws sample_opp 30
         @ [UpdateCall None, ActionCall 0 7, ActionCall 12 7])) = ''moving''"
proof -
  have h: "self_phase (run_calls sb_ops (Player_init sb_ops ''white'')
      (referee_calls True sample_draws sample_opp 30)) = ''moving''"
    by (rule moving_after_twelve) (simp add: referee_actions)
  with phase_placing_then_moving [of sb_ops "''white''"
      "referee_calls True sample_draws sample_opp 30"
      "[UpdateCall None, ActionCall 0 7, ActionCall 12 7]"]
  show ?thesis by blast
qed

section \<open>Properties of the simulation on a copy\<close>

lemma simulation_store:
  assumes "board_state < length h"
  shows "modify_at ops (snd (BoardState_copy h board_state)) (fst (BoardState_copy h board_state))
           (Some (Action (snd (BoardState_copy h board_state) ! board_state) enemy None (Some mv)))
           enemy
         = h @ [simulate_move ops (h ! board_state) enemy mv]"
  using assms
  by (simp add: BoardState_copy_def modify_at_def simulate_move_def nth_append)

lemma check_move_for_elimination_eq:
  assumes "board_state < length h"
  shows "check_move_for_elimination ops h board_state enemy player mv =
     (length (search_board ops (simulate_move ops (h ! board_state) enemy mv) (enemy_colour enemy))
        \<noteq> length (search_board ops (h ! board_state) (enemy_colour enemy)),
      h @ [simulate_move ops (h ! board_state) enemy mv])"
  using assms simulation_store [OF assms, of ops enemy mv]
  by (simp add: check_move_for_elimination_def Let_def split_beta enemy_colour_def
      nth_append BoardState_copy_def)

lemma evalutate_this_move_eq:
  assumes "board_state < length h"
  shows "evalutate_this_move ops h board_state enemy player mv =
     (int (length (search_board ops (simulate_move ops (h ! board_state) enemy mv) player))
        - int (length (search_board ops (h ! board_state) (enemy_colour enemy))),
      h @ [simulate_move ops (h ! board_state) enemy mv])"
  using assms simulation_store [OF assms, of ops enemy mv]
  by (simp add: evalutate_this_move_def Let_def split_beta enemy_colour_def
      nth_append BoardState_copy_def)

text \<open>
  C4.  Provided the move does not add a piece of the opponent (the missing
  \<open>BoardState.modify\<close> only ever removes opposing pieces),
  \<open>check_move_for_elimination\<close> returns \<open>True\<close> if and only if applying the move
  makes \<open>search_board\<close> for the opponent shorter by at least one than before the move; and
  whenever it returns \<open>False\<close> the opponent's piece count is the same before and after.
\<close>

theorem check_move_for_elimination_sound:
  assumes "board_state < length h"
    and "length (search_board ops (simulate_move ops (h ! board_state) enemy mv) (enemy_colour enemy))
          \<le> length (search_board ops (h ! board_state) (enemy_colour enemy))"
  shows "(fst (check_move_for_elimination ops h board_state enemy player mv)
            \<longleftrightarrow> length (search_board ops (simulate_move ops (h ! board_state) enemy mv)
                          (enemy_colour enemy)) + 1
                  \<le> length (search_board ops (h ! board_state) (enemy_colour enemy)))
       \<and> (\<not> fst (check_move_for_elimination ops h board_state enemy player mv)
            \<longrightarrow> length (search_board ops (simulate_move ops (h ! board_state) enemy mv)
                          (enemy_colour enemy))
                  = length (search_board ops (h ! board_state) (enemy_colour enemy)))"
  using assms(2) by (auto simp: check_move_for_elimination_eq [OF assms(1)])

lemma flank_counts:
  "length (search_board sb_ops (simulate_move sb_ops flank_board ''O'' (MoveObj (4, 4) (4, 3)))
      (enemy_colour ''O'')) = 0"
  "length (search_board sb_ops flank_board (enemy_colour ''O'')) = 1"
  "length (search_board sb_ops (simulate_move sb_ops flank_board ''O'' (MoveObj (4, 4) (4, 3)))
      ''@'') = 2"
  by code_simp+


lemma quiet_counts:
  "length (search_board sb_ops (simulate_move sb_ops flank_board ''O'' (MoveObj (4, 4) (5, 4)))
      (enemy_colour ''O'')) = 1"
  by code_simp

theorem check_move_for_elimination_sound_witness:
  "(0::nat) < length [flank_board]
   \<and> fst (check_move_for_elimination sb_ops [flank_board] 0 ''O'' ''@'' (MoveObj (4, 4) (4, 3)))
   \<and> length (search_board sb_ops (simulate_move sb_ops flank_board ''O'' (MoveObj (4, 4) (4, 3)))
        (enemy_colour ''O'')) + 1
      \<le> length (search_board sb_ops flank_board (enemy_colour ''O''))
   \<and> \<not> fst (check_move_for_elimination sb_ops [flank_board] 0 ''O'' ''@'' (MoveObj (4, 4) (5, 4)))
   \<and> length (search_board sb_ops (simulate_move sb_ops flank_board ''O'' (MoveObj (4, 4) (5, 4)))
        (enemy_colour ''O''))
      = length (search_board sb_ops flank_board (enemy_colour ''O''))"
proof -
  have h: "(0::nat) < length [flank_board]" by simp
  have le1: "length (search_board sb_ops
        (simulate_move sb_ops ([flank_board] ! 0) ''O'' (MoveObj (4, 4) (4, 3))) (enemy_colour ''O''))
      \<le> length (search_board sb_ops ([flank_board] ! 0) (enemy_colour ''O''))"
    by (simp add: flank_counts)
  have le2: "length (search_board sb_ops
        (simulate_move sb_ops ([flank_board] ! 0) ''O'' (MoveObj (4, 4) (5, 4))) (enemy_colour ''O''))
      \<le> length (search_board sb_ops ([flank_board] ! 0) (enemy_colour ''O''))"
    by (simp add: flank_counts quiet_counts)
  show ?thesis
    using check_move_for_elimination_sound [OF h le1, of "''@''"]
      check_move_for_elimination_sound [OF h le2, of "''@''"]
    by (simp add: flank_counts quiet_counts)
qed

text \<open>
  The implementation of the collaborators meets the hypothesis of the theorem on every
  board and for every move: applying a move never adds a piece of either colour.
\<close>

lemma sb_resolve_count:
  "length (sb_search_board (sb_resolve b mover dest) colour) \<le> length (sb_search_board b colour)"
proof -
  have "length (filter P (filter Q xs)) \<le> length (filter P xs)" for P Q and xs :: "'a list"
    by (induction xs) auto
  then show ?thesis by (simp add: sb_search_board_def sb_resolve_def)
qed

lemma sb_shift_count:
  "length (sb_search_board (sb_shift b mover s d) colour) \<le> length (sb_search_board b colour)"
proof -
  have "length (filter (\<lambda>ts. snd ts = c) (map (\<lambda>ts. if fst ts = s then (d, snd ts) else ts) xs))
      = length (filter (\<lambda>ts. snd ts = c) xs)" for c and xs :: "(coord \<times> string) list"
    by (induction xs) auto
  then have "length (sb_search_board
      (b\<lparr> sb_pieces := map (\<lambda>ts. if fst ts = s then (d, snd ts) else ts) (sb_pieces b) \<rparr>) colour)
      = length (sb_search_board b colour)"
    by (simp add: sb_search_board_def)
  with sb_resolve_count [of "b\<lparr> sb_pieces := map (\<lambda>ts. if fst ts = s then (d, snd ts) else ts)
      (sb_pieces b) \<rparr>" mover d colour]
  show ?thesis by (simp add: sb_shift_def)
qed

lemma sb_move_never_adds:
  "length (search_board sb_ops (simulate_move sb_ops b enemy mv) colour)
     \<le> length (search_board sb_ops b colour)"
  by (cases mv) (simp add: simulate_move_def sb_ops_def sb_shift_count)

text \<open>
  C8.  \<open>check_move_for_elimination\<close> and \<open>evalutate_this_move\<close> leave the board they
  are given as it was: after the call the object at \<open>board_state\<close> holds the value it
  held before, and so does every other board object that existed before the call.
\<close>

theorem simulation_leaves_board_unchanged:
  assumes "board_state < length h"
  shows "snd (check_move_for_elimination ops h board_state enemy player mv) ! board_state
           = h ! board_state
       \<and> take (length h) (snd (check_move_for_elimination ops h board_state enemy player mv)) = h
       \<and> snd (evalutate_this_move ops h board_state enemy player mv) ! board_state
           = h ! board_state
       \<and> take (length h) (snd (evalutate_this_move ops h board_state enemy player mv)) = h"
  using assms
  by (simp add: check_move_for_elimination_eq evalutate_this_move_eq nth_append)

theorem simulation_leaves_board_unchanged_witness:
  "(0::nat) < length [flank_board]
   \<and> snd (check_move_for_elimination sb_ops [flank_board] 0 ''O'' ''@'' (MoveObj (4, 4) (4, 3))) ! 0
       = flank_board
   \<and> snd (evalutate_this_move sb_ops [flank_board] 0 ''O'' ''@'' (MoveObj (4, 4) (4, 3))) ! 0
       = flank_board
   \<and> simulate_move sb_ops flank_board ''O'' (MoveObj (4, 4) (4, 3)) \<noteq> flank_board"
proof -
  have h: "(0::nat) < length [flank_board]" by simp
  have "simulate_move sb_ops flank_board ''O'' (MoveObj (4, 4) (4, 3)) \<noteq> flank_board"
    by code_simp
  then show ?thesis
    using simulation_leaves_board_unchanged [OF h, of sb_ops "''O''" "''@''" "MoveObj (4, 4) (4, 3)"]
    by simp
qed

text \<open>
  What \<open>evalutate_this_move\<close> returns: the acting player's piece count on the board
  after the move minus the opponent's piece count on the board before the move.
\<close>

lemma evalutate_this_move_value:
  assumes "board_state < length h"
  shows "fst (evalutate_this_move ops h board_state enemy player mv) =
     int (length (search_board ops (simulate_move ops (h ! board_state) enemy mv) player))
       - int (length (search_board ops (h ! board_state) (enemy_colour enemy)))"
  by (simp add: evalutate_this_move_eq [OF assms])

text \<open>
  C7.  \<open>evalutate_this_move\<close> does not return the difference of the two piece counts
  on the board after the move: the opponent's count is read from the board before the
  move.  On \<open>flank_board\<close> the black move from (4,4) to (4,3) captures the only white
  piece; after the move black has two pieces and white none, a difference of 2, while
  \<open>evalutate_this_move\<close> returns 1.
\<close>

theorem evalutate_this_move_ignores_capture:
  "fst (evalutate_this_move sb_ops [flank_board] 0 ''O'' ''@'' (MoveObj (4, 4) (4, 3))) = 1
   \<and> int (length (search_board sb_ops
              (simulate_move sb_ops flank_board ''O'' (MoveObj (4, 4) (4, 3))) ''@''))
       - int (length (search_board sb_ops
              (simulate_move sb_ops flank_board ''O'' (MoveObj (4, 4) (4, 3))) (enemy_colour ''O'')))
       = 2"
proof -
  have "(0::nat) < length [flank_board]" by simp
  from evalutate_this_move_value [OF this, of sb_ops "''O''" "''@''" "MoveObj (4, 4) (4, 3)"]
  show ?thesis by (simp add: flank_counts)
qed

section \<open>Properties of \<open>do_random_move\<close>\<close>

lemma randint_index:
  assumes "xs \<noteq> []"
  shows "nat (randint draw 0 (int (length xs) - 1)) < length xs"
proof -
  have "0 < int (length xs)" using assms by simp
  then have "int draw mod int (length xs) < int (length xs)"
    and "0 \<le> int draw mod int (length xs)" by simp_all
  then show ?thesis by (simp add: randint_def)
qed

lemma do_random_move_eq:
  "do_random_move ops b enemy draw =
     (if generate_moves ops b (acting_colour enemy) = [] then None
      else Some (Action b enemy None
        (Some (generate_moves ops b (acting_colour enemy)
                 ! nat (randint draw 0
                     (int (length (generate_moves ops b (acting_colour enemy))) - 1))))))"
  by (simp add: do_random_move_def acting_colour_def Let_def)

text \<open>
  C6.  \<open>do_random_move\<close> returns \<open>None\<close> exactly when \<open>generate_moves\<close> returns no move
  for the acting colour; otherwise it returns an \<open>Action\<close> built from one of the generated
  moves.  In the moving phase \<open>Player.action\<close> returns \<open>None\<close> to the referee when
  \<open>do_random_move\<close> returned \<open>None\<close>, and otherwise what \<open>return_action\<close> makes of the
  action.
\<close>

theorem do_random_move_forfeit:
  "(do_random_move ops b enemy draw = None
      \<longleftrightarrow> generate_moves ops b (acting_colour enemy) = [])
   \<and> (generate_moves ops b (acting_colour enemy) \<noteq> []
        \<longrightarrow> (\<exists>mv \<in> set (generate_moves ops b (acting_colour enemy)).
               do_random_move ops b enemy draw = Some (Action b enemy None (Some mv))))
   \<and> (self_phase p \<noteq> ''placing''
        \<and> do_random_move ops (self_board p) (self_enemy p) draw = None
        \<longrightarrow> fst (Player_action ops p turns draw) = None)
   \<and> (self_phase p \<noteq> ''placing''
        \<longrightarrow> (\<forall>a. do_random_move ops (self_board p) (self_enemy p) draw = Some a
               \<longrightarrow> fst (Player_action ops p turns draw) = return_action ops a))"
proof -
  have "nat (randint draw 0 (int (length (generate_moves ops b (acting_colour enemy))) - 1))
      < length (generate_moves ops b (acting_colour enemy))"
    if "generate_moves ops b (acting_colour enemy) \<noteq> []"
    using that by (rule randint_index)
  then have "generate_moves ops b (acting_colour enemy) \<noteq> []
        \<longrightarrow> (\<exists>mv \<in> set (generate_moves ops b (acting_colour enemy)).
               do_random_move ops b enemy draw = Some (Action b enemy None (Some mv)))"
    by (auto simp: do_random_move_eq)
  moreover have "do_random_move ops b enemy draw = None
      \<longleftrightarrow> generate_moves ops b (acting_colour enemy) = []"
    by (simp add: do_random_move_eq)
  moreover have "self_phase p \<noteq> ''placing''
        \<and> do_random_move ops (self_board p) (self_enemy p) draw = None
        \<longrightarrow> fst (Player_action ops p turns draw) = None"
    by (simp add: Player_action_def Let_def)
  moreover have "self_phase p \<noteq> ''placing''
        \<longrightarrow> (\<forall>a. do_random_move ops (self_board p) (self_enemy p) draw = Some a
               \<longrightarrow> fst (Player_action ops p turns draw) = return_action ops a)"
    by (simp add: Player_action_def Let_def)
  ultimately show ?thesis by blast
qed

lemma stuck_moves:
  "generate_moves sb_ops bare_board (acting_colour ''O'') = []"
  "self_phase stuck_player \<noteq> ''placing''"
  "self_board stuck_player = bare_board"
  "self_enemy stuck_player = ''O''"
  by code_simp+

lemma flank_moves:
  "generate_moves sb_ops flank_board (acting_colour ''O'') =
     [MoveObj (2, 3) (4, 3), MoveObj (2, 3) (1, 3), MoveObj (2, 3) (2, 4),
      MoveObj (2, 3) (2, 2), MoveObj (4, 4) (5, 4), MoveObj (4, 4) (3, 4),
      MoveObj (4, 4) (4, 5), MoveObj (4, 4) (4, 3)]"
  by code_simp

theorem do_random_move_forfeit_witness:
  "generate_moves sb_ops bare_board (acting_colour ''O'') = []
   \<and> do_random_move sb_ops bare_board ''O'' 3 = None
   \<and> fst (Player_action sb_ops stuck_player 17 3) = None
   \<and> generate_moves sb_ops flank_board (acting_colour ''O'') \<noteq> []
   \<and> (\<exists>mv. mv \<in> set (generate_moves sb_ops flank_board (acting_colour ''O''))
        \<and> do_random_move sb_ops flank_board ''O'' 3
            = Some (Action flank_board ''O'' None (Some mv)))"
proof -
  have ne: "generate_moves sb_ops flank_board (acting_colour ''O'') \<noteq> []"
    by (simp add: flank_moves)
  from do_random_move_forfeit [of sb_ops bare_board "''O''" 3 stuck_player 17]
  have "do_random_move sb_ops bare_board ''O'' 3 = None"
    and "fst (Player_action sb_ops stuck_player 17 3) = None"
    by (simp_all add: stuck_moves)
  moreover from do_random_move_forfeit [of sb_ops flank_board "''O''" 3 stuck_player 17] ne
  have "\<exists>mv. mv \<in> set (generate_moves sb_ops flank_board (acting_colour ''O''))
        \<and> do_random_move sb_ops flank_board ''O'' 3
            = Some (Action flank_board ''O'' None (Some mv))"
    by blast
  ultimately show ?thesis using ne by (simp add: stuck_moves)
qed

section \<open>Properties of \<open>move_to_centre_algorithm\<close>\<close>
















section \<open>Properties of \<open>check_easy_elimination\<close>\<close>

lemma first_elimination_length:
  assumes "first_elimination ops h board_state enemy player mvs = (move_list, h')"
  shows "length move_list \<le> 1"
  using assms
  by (induction mvs arbitrary: h) (auto split: prod.splits bool.splits)

lemma check_easy_elimination_length:
  assumes "generate_moves ops (h ! board_state) (acting_colour enemy) \<noteq> []"
    and "check_easy_elimination ops h board_state enemy player draw = Inr (move_list, h')"
  shows "2 \<le> length move_list \<and> length move_list \<le> 3"
  using assms
  by (auto simp: check_easy_elimination_def acting_colour_def Let_def
      split: if_splits prod.splits sum.splits dest: first_elimination_length)

text \<open>
  C2.  \<open>check_easy_elimination\<close> does not return a single move: when there is a legal
  move it returns a list of two or three entries, the first eliminating move if there is
  one, then the result of \<open>move_to_centre_algorithm\<close> (which may be \<open>None\<close>), then a move
  drawn at random.  On \<open>flank_board\<close>, with black to move, the list is the capturing move
  from (4,4) to (4,3), \<open>None\<close>, and the move drawn at random.
\<close>

theorem check_easy_elimination_returns_list:
  "map_sum id fst (check_easy_elimination sb_ops [flank_board] 0 ''O'' ''@'' 0) =
     Inr [Some (MoveObj (4, 4) (4, 3)), None, Some (MoveObj (2, 3) (4, 3))]"
  by code_simp

end
